theory Spec2Isabelle
  imports Complex_Main "HOL-Library.Multiset"
begin

section \<open>The enumerator of \<^verbatim>\<open>pairings.py\<close>\<close>

text \<open>
  A solution is the two-element list \<^verbatim>\<open>[pairs, left_out]\<close> of the source: a list of
  pairs (tuples) and the list of the people left out.  The enumerator never compares
  people, so their type is left open.
\<close>

type_synonym 'a solution = "('a \<times> 'a) list \<times> 'a list"

text \<open>The slice expression \<^verbatim>\<open>xs[:i] + xs[i+1:]\<close>.\<close>

definition del_at :: "nat \<Rightarrow> 'a list \<Rightarrow> 'a list" where
  "del_at i xs = take i xs @ drop (Suc i) xs"

text \<open>
  \<^verbatim>\<open>generate_pairings_for_even_group\<close>: the two base cases, then the loop
  \<^verbatim>\<open>for i, partner in enumerate(remaining)\<close> with \<^verbatim>\<open>partner = remaining[i]\<close>; the
  inner loop appends \<^verbatim>\<open>[current_pair] + sub_pairing\<close> for every sub-pairing.
\<close>

function generate_pairings_for_even_group :: "'a list \<Rightarrow> ('a \<times> 'a) list list" where
  "generate_pairings_for_even_group people =
     (if length people = 0 then [[]]
      else if length people = 2 then [[(people ! 0, people ! 1)]]
      else
        (let first_person = people ! 0;
             remaining = drop 1 people
         in concat (map (\<lambda>i.
                      map (\<lambda>sub_pairing. (first_person, remaining ! i) # sub_pairing)
                          (generate_pairings_for_even_group (del_at i remaining)))
                    [0..<length remaining])))"
  by pat_completeness auto
termination
  by (relation "measure length") (auto simp: del_at_def)

declare generate_pairings_for_even_group.simps [simp del]

text \<open>
  The part of \<^verbatim>\<open>get_all_possible_pairings\<close> after its special cases (source lines
  28 to 43): the leftover-choice loop for an odd number of people, the plain matching
  for an even number.
\<close>

definition general_pairings :: "'a list \<Rightarrow> 'a solution list" where
  "general_pairings people =
     (if length people mod 2 = 1 then
        concat (map (\<lambda>i.
                  map (\<lambda>pairing. (pairing, [people ! i]))
                      (generate_pairings_for_even_group (del_at i people)))
                [0..<length people])
      else map (\<lambda>pairing. (pairing, [])) (generate_pairings_for_even_group people))"

definition get_all_possible_pairings :: "'a list \<Rightarrow> 'a solution list" where
  "get_all_possible_pairings people =
     (if length people < 2 then []
      else if length people = 2 then [([(people ! 0, people ! 1)], [])]
      else if length people = 3 then
        [([(people ! 1, people ! 2)], [people ! 0]),
         ([(people ! 0, people ! 2)], [people ! 1]),
         ([(people ! 0, people ! 1)], [people ! 2])]
      else general_pairings people)"

text \<open>
  The double factorial of the spec: \<open>odd_double_factorial k\<close> is \<open>(2k-1)!!\<close>, the
  product of the odd numbers below \<open>2k\<close>.
\<close>

fun odd_double_factorial :: "nat \<Rightarrow> nat" where
  "odd_double_factorial 0 = 1"
| "odd_double_factorial (Suc k) = (2 * k + 1) * odd_double_factorial k"

text \<open>The people of a list of pairs, in order, and its set of unordered pairs.\<close>

definition members :: "('a \<times> 'a) list \<Rightarrow> 'a list" where
  "members ps = concat (map (\<lambda>(a, b). [a, b]) ps)"

definition pair_set :: "('a \<times> 'a) list \<Rightarrow> 'a set set" where
  "pair_set ps = (\<lambda>(a, b). {a, b}) ` set ps"

section \<open>Strings: comparison, \<^verbatim>\<open>split\<close> and \<^verbatim>\<open>int\<close>\<close>

text \<open>
  Names and week identifiers are Python strings.  A character of the model is a code
  point below 256; the model of \<^verbatim>\<open>int\<close> is the interpreter's on such strings (the
  interpreter's configurable limit on the number of digits apart).  Python compares
  strings code point by code point, a proper prefix being smaller.
\<close>

datatype error = IndexError | ValueError | KeyError | ZeroDivisionError

fun str_less :: "string \<Rightarrow> string \<Rightarrow> bool" where
  "str_less [] [] = False"
| "str_less [] (y # ys) = True"
| "str_less (x # xs) [] = False"
| "str_less (x # xs) (y # ys) =
     ((of_char x :: nat) < of_char y \<or> (x = y \<and> str_less xs ys))"

text \<open>\<^verbatim>\<open>s.split(c)\<close>: the pieces between the occurrences of \<open>c\<close>, never an empty list.\<close>

fun split_on :: "char \<Rightarrow> string \<Rightarrow> string list" where
  "split_on c [] = [[]]"
| "split_on c (x # xs) =
     (if x = c then [] # split_on c xs
      else (case split_on c xs of [] \<Rightarrow> [[x]] | p # ps \<Rightarrow> (x # p) # ps))"

definition is_space :: "char \<Rightarrow> bool" where
  "is_space c = ((of_char c :: nat) \<in> {9, 10, 11, 12, 13, 32, 133, 160})"

definition is_digit :: "char \<Rightarrow> bool" where
  "is_digit c = (48 \<le> (of_char c :: nat) \<and> (of_char c :: nat) \<le> 57)"

definition digit_val :: "char \<Rightarrow> nat" where
  "digit_val c = of_char c - 48"

text \<open>
  The digits after the first one: a single underscore may stand between two digits.
\<close>

fun py_digits :: "nat \<Rightarrow> string \<Rightarrow> nat option" where
  "py_digits acc [] = Some acc"
| "py_digits acc (c # cs) =
     (if is_digit c then py_digits (10 * acc + digit_val c) cs
      else if c = CHR ''_'' then
        (case cs of
           [] \<Rightarrow> None
         | d # ds \<Rightarrow> if is_digit d then py_digits (10 * acc + digit_val d) ds else None)
      else None)"

text \<open>
  \<^verbatim>\<open>int(s)\<close> on a string: surrounding white space is dropped, one sign is allowed,
  then come the digits; anything else raises \<^verbatim>\<open>ValueError\<close>.
\<close>

definition py_int :: "string \<Rightarrow> error + int" where
  "py_int s =
     (let t = rev (dropWhile is_space (rev (dropWhile is_space s)));
          neg = (case t of [] \<Rightarrow> False | c # cs \<Rightarrow> c = CHR ''-'');
          body = (case t of [] \<Rightarrow> [] | c # cs \<Rightarrow> if c = CHR ''-'' \<or> c = CHR ''+'' then cs else t)
      in case body of
           [] \<Rightarrow> Inl ValueError
         | d # ds \<Rightarrow>
             if is_digit d then
               (case py_digits (digit_val d) ds of
                  None \<Rightarrow> Inl ValueError
                | Some n \<Rightarrow> Inr (if neg then - int n else int n))
             else Inl ValueError)"

text \<open>
  The expression \<^verbatim>\<open>int(week.split('-')[1])\<close> of \<^verbatim>\<open>score_solution\<close>: an
  \<^verbatim>\<open>IndexError\<close> without a hyphen, a \<^verbatim>\<open>ValueError\<close> when the second piece is no
  number.
\<close>

definition week_num :: "string \<Rightarrow> error + int" where
  "week_num week =
     (case split_on CHR ''-'' week of
        a # b # rest \<Rightarrow> py_int b
      | _ \<Rightarrow> Inl IndexError)"

text \<open>
  \<^verbatim>\<open>max\<close> of a list of strings: the first of the largest ones, \<^verbatim>\<open>ValueError\<close> on the
  empty list.
\<close>

definition py_max :: "string list \<Rightarrow> error + string" where
  "py_max ws =
     (case ws of
        [] \<Rightarrow> Inl ValueError
      | w # rest \<Rightarrow> Inr (foldl (\<lambda>m x. if str_less m x then x else m) w rest))"

section \<open>The data of the coffee roulette\<close>

text \<open>
  The dictionaries of \<^verbatim>\<open>coffee.json\<close>.  A dictionary whose order of iteration matters
  is an association list in that order, with \<open>map_of\<close> for its lookups.  A key that the
  code reads with \<^verbatim>\<open>get\<close> or tests with \<^verbatim>\<open>in\<close> is an \<open>option\<close>: \<open>None\<close> when the key
  is absent.  The counters are Python integers.
\<close>

record person_info =
  active :: bool
  times_left_out :: "int option"
  total_weeks_participated :: int

record week_data =
  wk_pairs :: "string list list option"
  wk_manual_pairs :: "string list list option"
  wk_auto_pairs :: "string list list option"

record coffee_data =
  data_people :: "(string \<times> person_info) list option"
  data_pairings :: "(string \<times> week_data) list option"

record weights =
  first_time_meeting :: int
  recent_pairing_penalty :: int
  old_pairing_penalty :: int
  fairness_bonus :: int

definition default_weights :: weights where
  "default_weights =
     \<lparr>first_time_meeting = 10, recent_pairing_penalty = - 5,
      old_pairing_penalty = - 1, fairness_bonus = 3\<rparr>"

text \<open>
  A score is a Python number: an integer as long as only weights are added, a float once
  a fairness term is.  Floats are modelled by the rational numbers they stand for: the
  model computes the exact value of each arithmetic expression and leaves the rounding
  of binary floating point out.
\<close>

record breakdown =
  first_time_meetings :: int
  recent_pairings :: int
  old_pairings :: int
  fairness_score :: rat
  total_pairs :: int

section \<open>The history index\<close>

type_synonym history = "string \<times> string \<Rightarrow> string list option"

text \<open>\<^verbatim>\<open>tuple(sorted([a, b]))\<close>: the sort is stable, it swaps only when \<open>b < a\<close>.\<close>

definition pair_key :: "string \<Rightarrow> string \<Rightarrow> string \<times> string" where
  "pair_key a b = (if str_less b a then (b, a) else (a, b))"

text \<open>
  The inner loop of \<^verbatim>\<open>get_historical_pairs\<close>, on the \<^verbatim>\<open>defaultdict(list)\<close>: a pair of
  a length other than 2 is skipped.
\<close>

fun append_week :: "string \<Rightarrow> string list list \<Rightarrow> history \<Rightarrow> history" where
  "append_week week [] pairs = pairs"
| "append_week week (pair # rest) pairs =
     append_week week rest
       (if length pair = 2 then
          (let k = pair_key (pair ! 0) (pair ! 1)
           in pairs(k \<mapsto> (case pairs k of None \<Rightarrow> [] | Some ws \<Rightarrow> ws) @ [week]))
        else pairs)"

definition all_pairs_of :: "week_data \<Rightarrow> string list list" where
  "all_pairs_of wd =
     (case wk_pairs wd of None \<Rightarrow> [] | Some ps \<Rightarrow> ps)
     @ (case wk_manual_pairs wd of None \<Rightarrow> [] | Some ps \<Rightarrow> ps)
     @ (case wk_auto_pairs wd of None \<Rightarrow> [] | Some ps \<Rightarrow> ps)"

definition get_historical_pairs :: "coffee_data \<Rightarrow> history" where
  "get_historical_pairs data =
     foldl (\<lambda>pairs (week, wd). append_week week (all_pairs_of wd) pairs)
       Map.empty
       (case data_pairings data of None \<Rightarrow> [] | Some weeks \<Rightarrow> weeks)"

section \<open>The scorer\<close>

text \<open>
  One turn of the loop \<^verbatim>\<open>for person1, person2 in pairs\<close> of \<^verbatim>\<open>score_solution\<close>, on
  the integer score and the breakdown so far.  The target week is parsed before the most
  recent week, as the source does, and only for a pair that has a history.
\<close>

fun score_pair ::
  "weights \<Rightarrow> history \<Rightarrow> string \<Rightarrow> int \<times> breakdown \<Rightarrow> string \<times> string
     \<Rightarrow> error + (int \<times> breakdown)" where
  "score_pair w historical_pairs target_week (score, bd) (person1, person2) =
     (case historical_pairs (pair_key person1 person2) of
        None \<Rightarrow>
          Inr (score + first_time_meeting w,
               bd\<lparr>first_time_meetings := first_time_meetings bd + 1\<rparr>)
      | Some last_weeks \<Rightarrow>
          (case py_max last_weeks of
             Inl e \<Rightarrow> Inl e
           | Inr most_recent \<Rightarrow>
               (case week_num target_week of
                  Inl e \<Rightarrow> Inl e
                | Inr current_week_num \<Rightarrow>
                    (case week_num most_recent of
                       Inl e \<Rightarrow> Inl e
                     | Inr recent_week_num \<Rightarrow>
                         (let weeks_ago = current_week_num - recent_week_num
                          in if weeks_ago \<le> 2 then
                               Inr (score + recent_pairing_penalty w,
                                    bd\<lparr>recent_pairings := recent_pairings bd + 1\<rparr>)
                             else if weeks_ago \<le> 4 then
                               Inr (score + old_pairing_penalty w,
                                    bd\<lparr>old_pairings := old_pairings bd + 1\<rparr>)
                             else Inr (score, bd))))))"

fun score_pairs ::
  "weights \<Rightarrow> history \<Rightarrow> string \<Rightarrow> (string \<times> string) list \<Rightarrow> int \<times> breakdown
     \<Rightarrow> error + (int \<times> breakdown)" where
  "score_pairs w historical_pairs target_week [] st = Inr st"
| "score_pairs w historical_pairs target_week (pr # pairs) st =
     (case score_pair w historical_pairs target_week st pr of
        Inl e \<Rightarrow> Inl e
      | Inr st' \<Rightarrow> score_pairs w historical_pairs target_week pairs st')"

text \<open>
  \<^verbatim>\<open>p.get('times_left_out', 0)\<close>, and the same through
  \<^verbatim>\<open>people_stats.get(person, {})\<close> for a person who may be missing from the roster.
\<close>

definition left_out_count :: "person_info \<Rightarrow> int" where
  "left_out_count p = (case times_left_out p of None \<Rightarrow> 0 | Some c \<Rightarrow> c)"

definition person_left_out_count :: "(string \<times> person_info) list \<Rightarrow> string \<Rightarrow> int" where
  "person_left_out_count people_stats person =
     (case map_of people_stats person of None \<Rightarrow> 0 | Some p \<Rightarrow> left_out_count p)"

text \<open>
  The block \<^verbatim>\<open>if left_out:\<close>.  \<^verbatim>\<open>data['people']\<close> raises \<^verbatim>\<open>KeyError\<close> when the key is
  missing; the division \<^verbatim>\<open>sum(...) / len(people_stats)\<close> is Python's true division
  and raises \<^verbatim>\<open>ZeroDivisionError\<close> on an empty roster.
\<close>

fun fairness ::
  "weights \<Rightarrow> coffee_data \<Rightarrow> string list \<Rightarrow> int \<times> breakdown \<Rightarrow> error + (rat \<times> breakdown)" where
  "fairness w data left_out (score, bd) =
     (if left_out \<noteq> [] then
        (case data_people data of
           None \<Rightarrow> Inl KeyError
         | Some people_stats \<Rightarrow>
             if length people_stats = 0 then Inl ZeroDivisionError
             else
               (let avg_left_out =
                      (of_int (sum_list (map (\<lambda>(name, p). left_out_count p) people_stats)) :: rat)
                        / of_nat (length people_stats)
                in Inr (foldl
                     (\<lambda>(score, bd) person.
                        (let fairness_diff =
                               avg_left_out - of_int (person_left_out_count people_stats person);
                             fairness_term = fairness_diff * of_int (fairness_bonus w)
                         in (score + fairness_term,
                             bd\<lparr>fairness_score := fairness_score bd + fairness_term\<rparr>)))
                     (of_int score, bd) left_out)))
      else Inr (of_int score, bd))"

text \<open>
  \<^verbatim>\<open>score_solution\<close>: \<open>weights = None\<close> stands for the default weights.
\<close>

definition score_solution ::
  "(string \<times> string) list \<Rightarrow> string list \<Rightarrow> coffee_data \<Rightarrow> string \<Rightarrow> weights option
     \<Rightarrow> error + (rat \<times> breakdown)" where
  "score_solution pairs left_out data target_week weights_arg =
     (let w = (case weights_arg of None \<Rightarrow> default_weights | Some w' \<Rightarrow> w');
          bd0 = \<lparr>first_time_meetings = 0, recent_pairings = 0, old_pairings = 0,
                 fairness_score = 0, total_pairs = int (length pairs)\<rparr>;
          historical_pairs = get_historical_pairs data
      in case score_pairs w historical_pairs target_week pairs (0, bd0) of
           Inl e \<Rightarrow> Inl e
         | Inr st \<Rightarrow> fairness w data left_out st)"

section \<open>The ranker\<close>

text \<open>
  The fourth component of a ranked solution is either the breakdown of the scorer or, in
  the two degenerate cases, the dictionary \<^verbatim>\<open>{'note': ...}\<close>.
\<close>

datatype breakdown_info = Note string | Counts breakdown

type_synonym ranked = "rat \<times> (string \<times> string) list \<times> string list \<times> breakdown_info"

text \<open>The loop that scores each solution; the first exception ends it.\<close>

fun score_solutions ::
  "coffee_data \<Rightarrow> string \<Rightarrow> (string \<times> string) list \<Rightarrow> string solution list
     \<Rightarrow> error + ranked list" where
  "score_solutions data target_week manual_pairs [] = Inr []"
| "score_solutions data target_week manual_pairs ((auto_pairs, left_out) # all_solutions) =
     (let all_pairs = manual_pairs @ auto_pairs
      in case score_solution all_pairs left_out data target_week None of
           Inl e \<Rightarrow> Inl e
         | Inr (score, bd) \<Rightarrow>
             (case score_solutions data target_week manual_pairs all_solutions of
                Inl e \<Rightarrow> Inl e
              | Inr scored \<Rightarrow> Inr ((score, all_pairs, left_out, Counts bd) # scored)))"

text \<open>
  \<^verbatim>\<open>sort(key=lambda x: x[0], reverse=True)\<close>: the interpreter reverses the list, sorts
  it stably by ascending key and reverses it again, so that equal scores keep their
  order.
\<close>

definition sort_by_score_desc :: "ranked list \<Rightarrow> ranked list" where
  "sort_by_score_desc xs = rev (sort_key fst (rev xs))"

text \<open>
  The slice \<^verbatim>\<open>xs[:n]\<close>: the first \<open>n\<close> elements, and for a negative \<open>n\<close> all but the
  last \<open>-n\<close>.
\<close>

definition slice_to :: "int \<Rightarrow> 'a list \<Rightarrow> 'a list" where
  "slice_to n xs = (if 0 \<le> n then take (nat n) xs else take (nat (int (length xs) + n)) xs)"

text \<open>
  \<^verbatim>\<open>find_best_pairings\<close>, without its three \<^verbatim>\<open>print\<close> calls; \<open>manual_pairs = None\<close>
  stands for no manual pair.
\<close>

definition find_best_pairings ::
  "string list \<Rightarrow> coffee_data \<Rightarrow> string \<Rightarrow> (string \<times> string) list option \<Rightarrow> int
     \<Rightarrow> error + ranked list" where
  "find_best_pairings active_people data target_week manual_pairs_arg top_n =
     (let manual_pairs = (case manual_pairs_arg of None \<Rightarrow> [] | Some m \<Rightarrow> m);
          manually_paired_people = set (members manual_pairs);
          available_people = filter (\<lambda>p. p \<notin> manually_paired_people) active_people
      in if length available_people < 2 \<and> length available_people > 0 then
           Inr [(0, manual_pairs, available_people,
                 Note ''Only 1 person available for auto-pairing'')]
         else if length available_people = 0 then
           Inr [(0, manual_pairs, [], Note ''All pairs are manual'')]
         else
           (case score_solutions data target_week manual_pairs
                   (get_all_possible_pairings available_people) of
              Inl e \<Rightarrow> Inl e
            | Inr scored_solutions \<Rightarrow> Inr (slice_to top_n (sort_by_score_desc scored_solutions))))"

section \<open>The data of the test function\<close>

text \<open>
  \<^verbatim>\<open>test_data\<close> of \<^verbatim>\<open>test_pairing_algorithm\<close>, and the same data after the
  \<^verbatim>\<open>toggle\<close> command of \<^verbatim>\<open>coffee.py\<close> has made two people inactive.
\<close>

definition test_data :: coffee_data where
  "test_data =
     \<lparr>data_people = Some
        [(''Mary Jones'',
          \<lparr>active = True, times_left_out = Some 1, total_weeks_participated = 5\<rparr>),
         (''Peter Smith'',
          \<lparr>active = True, times_left_out = Some 0, total_weeks_participated = 6\<rparr>),
         (''Sarah Brown'',
          \<lparr>active = True, times_left_out = Some 2, total_weeks_participated = 4\<rparr>),
         (''John Doe'',
          \<lparr>active = True, times_left_out = Some 0, total_weeks_participated = 6\<rparr>),
         (''Lisa Wilson'',
          \<lparr>active = True, times_left_out = Some 1, total_weeks_participated = 5\<rparr>)],
      data_pairings = Some
        [(''2025-29'',
          \<lparr>wk_pairs = Some [[''Mary Jones'', ''Peter Smith''], [''Sarah Brown'', ''John Doe'']],
             wk_manual_pairs = None, wk_auto_pairs = None\<rparr>),
         (''2025-30'',
          \<lparr>wk_pairs = Some [[''Mary Jones'', ''Sarah Brown''], [''Peter Smith'', ''Lisa Wilson'']],
             wk_manual_pairs = None, wk_auto_pairs = None\<rparr>)]\<rparr>"


definition test_people :: "string list" where
  "test_people = [''Mary Jones'', ''Peter Smith'', ''Sarah Brown'', ''John Doe'', ''Lisa Wilson'']"

section \<open>Properties of the enumerator\<close>

lemma gen_Nil: "generate_pairings_for_even_group [] = [[]]"
  by (simp add: generate_pairings_for_even_group.simps)

lemma gen_Cons:
  "generate_pairings_for_even_group (x # xs) =
     concat (map (\<lambda>i. map (\<lambda>sub. (x, xs ! i) # sub)
                          (generate_pairings_for_even_group (del_at i xs)))
                 [0..<length xs])"
proof (cases xs)
  case Nil
  then show ?thesis by (simp add: generate_pairings_for_even_group.simps [of "[x]"])
next
  case (Cons y ys)
  show ?thesis
  proof (cases ys)
    case Nil
    with Cons show ?thesis
      by (simp add: generate_pairings_for_even_group.simps [of "[x, y]"] del_at_def gen_Nil)
  next
    case (Cons z zs)
    with \<open>xs = y # ys\<close> show ?thesis
      by (simp add: generate_pairings_for_even_group.simps [of "x # y # z # zs"] Let_def
            del: upt_Suc)
  qed
qed

lemma length_del_at: "i < length xs \<Longrightarrow> length (del_at i xs) = length xs - 1"
  by (simp add: del_at_def)

lemma mset_del_at: "i < length xs \<Longrightarrow> add_mset (xs ! i) (mset (del_at i xs)) = mset xs"
proof -
  assume "i < length xs"
  then have "xs = take i xs @ xs ! i # drop (Suc i) xs" by (rule id_take_nth_drop)
  then have "mset xs = mset (take i xs @ xs ! i # drop (Suc i) xs)" by simp
  then show ?thesis by (simp add: del_at_def)
qed

lemma set_del_at_subset: "set (del_at i xs) \<subseteq> set xs"
  unfolding del_at_def by (auto dest: in_set_takeD in_set_dropD)

lemma distinct_del_at: "distinct xs \<Longrightarrow> distinct (del_at i xs)"
  by (simp add: del_at_def set_take_disj_set_drop_if_distinct)

lemma length_concat_const:
  "(\<And>i. i < n \<Longrightarrow> length (F i) = c) \<Longrightarrow> length (concat (map F [0..<n])) = n * c"
  by (induction n) simp_all

lemma gen_length:
  "length xs = 2 * k \<Longrightarrow> length (generate_pairings_for_even_group xs) = odd_double_factorial k"
proof (induction k arbitrary: xs)
  case 0
  then show ?case by (simp add: gen_Nil)
next
  case (Suc k)
  then obtain x ys where xs: "xs = x # ys" and len: "length ys = 2 * k + 1"
    by (cases xs) auto
  have "length (generate_pairings_for_even_group (del_at i ys)) = odd_double_factorial k"
    if "i < length ys" for i
    using that len by (intro Suc.IH) (simp add: length_del_at)
  then have "length (generate_pairings_for_even_group xs) = length ys * odd_double_factorial k"
    unfolding xs gen_Cons by (intro length_concat_const) simp
  with len show ?case by simp
qed

lemma gen_members:
  "ps \<in> set (generate_pairings_for_even_group xs) \<Longrightarrow> mset (members ps) = mset xs"
proof (induction "length xs" arbitrary: xs ps rule: less_induct)
  case less
  show ?case
  proof (cases xs)
    case Nil
    with less.prems show ?thesis by (simp add: gen_Nil members_def)
  next
    case (Cons x ys)
    with less.prems obtain i sub where i: "i < length ys"
      and sub: "sub \<in> set (generate_pairings_for_even_group (del_at i ys))"
      and ps: "ps = (x, ys ! i) # sub"
      by (auto simp: gen_Cons)
    have "mset (members sub) = mset (del_at i ys)"
      using sub i Cons by (intro less.hyps) (simp_all add: length_del_at)
    then have "mset (members ps) = add_mset x (add_mset (ys ! i) (mset (del_at i ys)))"
      by (simp add: ps members_def)
    with i Cons show ?thesis by (simp add: mset_del_at)
  qed
qed

lemma pair_set_Cons: "pair_set ((a, b) # ps) = insert {a, b} (pair_set ps)"
  by (simp add: pair_set_def)

lemma pair_set_members: "P \<in> pair_set ps \<Longrightarrow> P \<subseteq> set (members ps)"
  by (auto simp: pair_set_def members_def)

lemma distinct_concat_upt:
  assumes "\<And>i. i < n \<Longrightarrow> distinct (G i)"
    and "\<And>i j. i < j \<Longrightarrow> j < n \<Longrightarrow> set (G i) \<inter> set (G j) = {}"
  shows "distinct (concat (map G [0..<n]))"
  using assms
proof (induction n)
  case 0
  then show ?case by simp
next
  case (Suc n)
  have "distinct (concat (map G [0..<n]))"
    by (rule Suc.IH) (simp_all add: Suc.prems)
  moreover have "distinct (G n)" by (simp add: Suc.prems)
  moreover have "set (concat (map G [0..<n])) \<inter> set (G n) = {}"
    using Suc.prems(2) [of _ n] by (auto simp: disjoint_iff)
  ultimately show ?case by simp
qed

lemma gen_distinct:
  "distinct xs \<Longrightarrow> distinct (map pair_set (generate_pairings_for_even_group xs))"
proof (induction "length xs" arbitrary: xs rule: less_induct)
  case less
  show ?case
  proof (cases xs)
    case Nil
    then show ?thesis by (simp add: gen_Nil)
  next
    case (Cons x ys)
    with less.prems have x: "x \<notin> set ys" and dys: "distinct ys" by simp_all
    define G where "G = (\<lambda>i. map (\<lambda>sub. insert {x, ys ! i} (pair_set sub))
                                  (generate_pairings_for_even_group (del_at i ys)))"
    have fresh: "{x, y} \<notin> pair_set sub"
      if "sub \<in> set (generate_pairings_for_even_group (del_at i ys))" for sub i y
    proof
      assume "{x, y} \<in> pair_set sub"
      then have "x \<in> set (members sub)" using pair_set_members by fastforce
      then have "x \<in># mset (members sub)" by simp
      then have "x \<in> set (del_at i ys)" using gen_members [OF that] by simp
      with x set_del_at_subset [of i ys] show False by auto
    qed
    have d: "distinct (G i)" if "i < length ys" for i
    proof -
      have ih: "distinct (map pair_set (generate_pairings_for_even_group (del_at i ys)))"
        using that dys Cons by (intro less.hyps) (simp_all add: length_del_at distinct_del_at)
      have "inj_on (\<lambda>sub. insert {x, ys ! i} (pair_set sub))
              (set (generate_pairings_for_even_group (del_at i ys)))"
      proof (rule inj_onI)
        fix s t
        assume s: "s \<in> set (generate_pairings_for_even_group (del_at i ys))"
          and t: "t \<in> set (generate_pairings_for_even_group (del_at i ys))"
          and eq: "insert {x, ys ! i} (pair_set s) = insert {x, ys ! i} (pair_set t)"
        from eq fresh [OF s] fresh [OF t] have "pair_set s = pair_set t"
          by (metis insert_ident)
        with ih s t show "s = t" by (auto simp: distinct_map dest: inj_onD)
      qed
      with ih show ?thesis by (simp add: G_def distinct_map)
    qed
    have disj: "set (G i) \<inter> set (G j) = {}" if "i < j" "j < length ys" for i j
    proof (rule ccontr)
      assume "set (G i) \<inter> set (G j) \<noteq> {}"
      then obtain s t where s: "s \<in> set (generate_pairings_for_even_group (del_at i ys))"
        and t: "t \<in> set (generate_pairings_for_even_group (del_at j ys))"
        and eq: "insert {x, ys ! i} (pair_set s) = insert {x, ys ! j} (pair_set t)"
        by (auto simp: G_def)
      from that dys have "ys ! i \<noteq> ys ! j" by (simp add: nth_eq_iff_index_eq)
      then have "{x, ys ! i} \<noteq> {x, ys ! j}" by (simp add: doubleton_eq_iff)
      with eq have "{x, ys ! i} \<in> pair_set t" by auto
      with fresh [OF t] show False by simp
    qed
    have "map pair_set (generate_pairings_for_even_group xs) = concat (map G [0..<length ys])"
      by (simp add: Cons gen_Cons map_concat G_def comp_def pair_set_Cons)
    with d disj show ?thesis by (simp add: distinct_concat_upt)
  qed
qed

lemma list_length_2: "length xs = 2 \<Longrightarrow> \<exists>a b. xs = [a, b]"
  by (cases xs; cases "tl xs") auto

lemma list_length_3: "length xs = 3 \<Longrightarrow> \<exists>a b c. xs = [a, b, c]"
  by (cases xs; cases "tl xs"; cases "tl (tl xs)") auto

lemma gen_two: "generate_pairings_for_even_group [a, b] = [[(a, b)]]"
  by (simp add: generate_pairings_for_even_group.simps [of "[a, b]"])

lemma special_two: "get_all_possible_pairings [a, b] = general_pairings [a, b]"
  by (simp add: get_all_possible_pairings_def general_pairings_def gen_two)

lemma upt_3: "[0..<3] = [0, 1, 2]"
  by (simp add: upt_rec)

lemma special_three: "get_all_possible_pairings [a, b, c] = general_pairings [a, b, c]"
  by (simp add: get_all_possible_pairings_def general_pairings_def gen_two del_at_def upt_3)

lemma get_all_general:
  "2 \<le> length people \<Longrightarrow> get_all_possible_pairings people = general_pairings people"
proof -
  assume len: "2 \<le> length people"
  consider "length people = 2" | "length people = 3" | "3 < length people"
    using len by linarith
  then show ?thesis
  proof cases
    case 1
    then show ?thesis using list_length_2 special_two by metis
  next
    case 2
    then show ?thesis using list_length_3 special_three by metis
  next
    case 3
    then show ?thesis by (simp add: get_all_possible_pairings_def)
  qed
qed

lemma general_even:
  "even (length people) \<Longrightarrow>
     general_pairings people = map (\<lambda>pairing. (pairing, [])) (generate_pairings_for_even_group people)"
  by (simp add: general_pairings_def even_iff_mod_2_eq_zero)

lemma general_odd:
  "odd (length people) \<Longrightarrow>
     general_pairings people =
       concat (map (\<lambda>i. map (\<lambda>pairing. (pairing, [people ! i]))
                            (generate_pairings_for_even_group (del_at i people)))
                   [0..<length people])"
  by (simp add: general_pairings_def odd_iff_mod_2_eq_one)

text \<open>
  Claim C9.  On a list of exactly two or exactly three people the special-cased branches
  of \<^verbatim>\<open>get_all_possible_pairings\<close> return the very list of solutions that the general
  algorithm (the leftover-choice loop over \<^verbatim>\<open>generate_pairings_for_even_group\<close>)
  returns on that list: the same solutions in the same order, hence the same pair sets
  and leftovers.  No assumption on duplicates is needed.
\<close>

theorem special_cases_agree_with_general:
  "length people = 2 \<or> length people = 3 \<Longrightarrow>
     get_all_possible_pairings people = general_pairings people"
  using list_length_2 [of people] list_length_3 [of people] special_two special_three
  by metis

theorem special_cases_agree_with_general_witness:
  "length [1, 2, 3 :: nat] = 3
   \<and> get_all_possible_pairings [1, 2, 3 :: nat] = general_pairings [1, 2, 3]
   \<and> length [1, 2 :: nat] = 2
   \<and> get_all_possible_pairings [1, 2 :: nat] = general_pairings [1, 2]"
proof -
  have h3: "length [1, 2 :: nat] = 2 \<or> length [1, 2 :: nat] = 3" by simp
  have h4: "length [1, 2, 3 :: nat] = 2 \<or> length [1, 2, 3 :: nat] = 3" by simp
  from special_cases_agree_with_general [OF h3] special_cases_agree_with_general [OF h4]
  show ?thesis by simp
qed

text \<open>
  Claim C1.  For a duplicate-free list of \<open>2k\<close> people with \<open>k \<ge> 1\<close> the enumerator
  returns exactly \<open>(2k-1)!!\<close> solutions, each with the empty leftover list, and no two
  of them have the same set of unordered pairs; for a list of fewer than two people it
  returns the empty list.
\<close>

theorem even_roster_solutions:
  "(distinct people \<and> length people = 2 * k \<and> 1 \<le> k \<longrightarrow>
      length (get_all_possible_pairings people) = odd_double_factorial k
      \<and> (\<forall>s \<in> set (get_all_possible_pairings people). snd s = [])
      \<and> distinct (map (\<lambda>s. pair_set (fst s)) (get_all_possible_pairings people)))
   \<and> (length people < 2 \<longrightarrow> get_all_possible_pairings people = [])"
proof (intro conjI impI)
  assume "length people < 2"
  then show "get_all_possible_pairings people = []"
    by (simp add: get_all_possible_pairings_def)
next
  assume h: "distinct people \<and> length people = 2 * k \<and> 1 \<le> k"
  then have eq: "get_all_possible_pairings people =
      map (\<lambda>pairing. (pairing, [])) (generate_pairings_for_even_group people)"
    by (simp add: get_all_general general_even)
  from h show "length (get_all_possible_pairings people) = odd_double_factorial k"
    by (simp add: eq gen_length)
  show "\<forall>s \<in> set (get_all_possible_pairings people). snd s = []"
    by (auto simp: eq)
  from h show "distinct (map (\<lambda>s. pair_set (fst s)) (get_all_possible_pairings people))"
    by (simp add: eq comp_def gen_distinct)
qed

theorem even_roster_solutions_witness:
  "distinct [1, 2, 3, 4 :: nat] \<and> length [1, 2, 3, 4 :: nat] = 2 * 2
   \<and> length (get_all_possible_pairings [1, 2, 3, 4 :: nat]) = 3
   \<and> snd ` set (get_all_possible_pairings [1, 2, 3, 4 :: nat]) \<subseteq> {[]}
   \<and> distinct (map (\<lambda>s. pair_set (fst s)) (get_all_possible_pairings [1, 2, 3, 4 :: nat]))
   \<and> length [1 :: nat] < 2 \<and> get_all_possible_pairings [1 :: nat] = []"
proof -
  have h: "distinct [1, 2, 3, 4 :: nat] \<and> length [1, 2, 3, 4 :: nat] = 2 * 2 \<and> (1 :: nat) \<le> 2"
    by simp
  have l: "length [1 :: nat] < 2" by simp
  have d: "odd_double_factorial 2 = 3" by code_simp
  from even_roster_solutions [of "[1, 2, 3, 4 :: nat]" 2] h d
    even_roster_solutions [of "[1 :: nat]" 0] l
  show ?thesis by auto
qed

text \<open>
  Claim C3.  In every solution returned for a duplicate-free list, the people of the
  pairs followed by the leftover list are the input people, each exactly once: every
  participant is in exactly one pair or exactly once in the leftover list, and nobody
  appears twice.
\<close>

theorem solution_covers_people:
  assumes "distinct people" and "(pairs, left_out) \<in> set (get_all_possible_pairings people)"
  shows "mset (members pairs @ left_out) = mset people \<and> distinct (members pairs @ left_out)"
proof -
  have len: "2 \<le> length people"
    using assms(2) by (cases "length people < 2") (simp_all add: get_all_possible_pairings_def)
  then have sol: "(pairs, left_out) \<in> set (general_pairings people)"
    using assms(2) by (simp add: get_all_general)
  have m: "mset (members pairs @ left_out) = mset people"
  proof (cases "even (length people)")
    case True
    with sol show ?thesis by (auto simp: general_even gen_members)
  next
    case False
    with sol obtain i where "i < length people"
      and "pairs \<in> set (generate_pairings_for_even_group (del_at i people))"
      and "left_out = [people ! i]"
      by (auto simp: general_odd)
    then show ?thesis by (simp add: gen_members mset_del_at)
  qed
  moreover from m assms(1) have "distinct (members pairs @ left_out)"
    by (metis mset_eq_imp_distinct_iff)
  ultimately show ?thesis by simp
qed

theorem solution_covers_people_witness:
  "distinct [1, 2, 3 :: nat]
   \<and> ([(2, 3)], [1]) \<in> set (get_all_possible_pairings [1, 2, 3 :: nat])
   \<and> mset (members [(2, 3)] @ [1]) = mset [1, 2, 3 :: nat]
   \<and> distinct (members [(2, 3)] @ [1 :: nat])"
proof -
  have h1: "distinct [1, 2, 3 :: nat]" by simp
  have h2: "([(2, 3)], [1]) \<in> set (get_all_possible_pairings [1, 2, 3 :: nat])"
    by (simp add: get_all_possible_pairings_def)
  from solution_covers_people [OF h1 h2] h1 h2 show ?thesis by simp
qed

lemma length_filter_concat_upt:
  "length (filter P (concat (map F [0..<n]))) = (\<Sum>i<n. length (filter P (F i)))"
  by (induction n) simp_all

text \<open>
  Claim C2.  For a duplicate-free list of \<open>2k+1\<close> people with \<open>k \<ge> 1\<close> the enumerator
  returns exactly \<open>(2k+1) * (2k-1)!!\<close> solutions, and every participant is the sole
  leftover of exactly \<open>(2k-1)!!\<close> of them.
\<close>

theorem odd_roster_solutions:
  assumes "distinct people" and "length people = 2 * k + 1" and "1 \<le> k"
  shows "length (get_all_possible_pairings people) = (2 * k + 1) * odd_double_factorial k
    \<and> (\<forall>p \<in> set people.
          length (filter (\<lambda>s. snd s = [p]) (get_all_possible_pairings people))
            = odd_double_factorial k)"
proof -
  let ?F = "\<lambda>i. map (\<lambda>pairing. (pairing, [people ! i]))
                     (generate_pairings_for_even_group (del_at i people))"
  have eq: "get_all_possible_pairings people = concat (map ?F [0..<length people])"
    using assms(2,3) by (simp add: get_all_general general_odd)
  have lenF: "length (?F i) = odd_double_factorial k" if "i < length people" for i
    using that assms(2) by (simp add: gen_length length_del_at)
  have "length (get_all_possible_pairings people) = length people * odd_double_factorial k"
    unfolding eq using lenF by (rule length_concat_const)
  moreover have "length (filter (\<lambda>s. snd s = [p]) (get_all_possible_pairings people))
      = odd_double_factorial k" if "p \<in> set people" for p
  proof -
    from that obtain j where j: "j < length people" and p: "p = people ! j"
      by (auto simp: in_set_conv_nth)
    have "length (filter (\<lambda>s. snd s = [p]) (?F i)) = (if i = j then odd_double_factorial k else 0)"
      if "i < length people" for i
    proof (cases "i = j")
      case True
      have "filter (\<lambda>s. snd s = [p]) (?F i) = ?F i"
        by (simp add: filter_map comp_def True p)
      then show ?thesis using True lenF [OF that] by simp
    next
      case False
      with that j assms(1) have "people ! i \<noteq> p" by (simp add: p nth_eq_iff_index_eq)
      then have "filter (\<lambda>s. snd s = [p]) (?F i) = []"
        by (simp add: filter_map comp_def)
      with False show ?thesis by simp
    qed
    then have "(\<Sum>i<length people. length (filter (\<lambda>s. snd s = [p]) (?F i)))
        = (\<Sum>i<length people. if i = j then odd_double_factorial k else 0)"
      by simp
    also have "\<dots> = odd_double_factorial k" using j by simp
    finally show ?thesis by (simp add: eq length_filter_concat_upt)
  qed
  ultimately show ?thesis using assms(2) by simp
qed

theorem odd_roster_solutions_witness:
  "distinct [1, 2, 3, 4, 5 :: nat] \<and> length [1, 2, 3, 4, 5 :: nat] = 2 * 2 + 1
   \<and> length (get_all_possible_pairings [1, 2, 3, 4, 5 :: nat]) = 15
   \<and> map (\<lambda>p. length (filter (\<lambda>s. snd s = [p])
                          (get_all_possible_pairings [1, 2, 3, 4, 5 :: nat])))
         [1, 2, 3, 4, 5]
       = [3, 3, 3, 3, 3]"
proof -
  have h1: "distinct [1, 2, 3, 4, 5 :: nat]" by simp
  have h2: "length [1, 2, 3, 4, 5 :: nat] = 2 * 2 + 1" by simp
  have h3: "(1 :: nat) \<le> 2" by simp
  have d: "odd_double_factorial 2 = 3" by code_simp
  from odd_roster_solutions [OF h1 h2 h3] h1 h2 d show ?thesis by simp
qed

section \<open>Properties of the scorer\<close>






lemma fairness_foldl:
  "foldl (\<lambda>(score, bd) person.
            (score + (avg - of_int (cnt person)) * bonus,
             bd\<lparr>fairness_score := fairness_score bd + (avg - of_int (cnt person)) * bonus\<rparr>))
         (s0, b0) left_out
   = (s0 + (\<Sum>p\<leftarrow>left_out. (avg - of_int (cnt p)) * bonus),
      b0\<lparr>fairness_score := fairness_score b0 + (\<Sum>p\<leftarrow>left_out. (avg - of_int (cnt p)) * bonus)\<rparr>)"
  for avg bonus :: rat
  by (induction left_out arbitrary: s0 b0) (simp_all add: algebra_simps)

lemma fairness_closed:
  "fairness w data left_out (score, bd) =
     (if left_out = [] then Inr (of_int score, bd)
      else case data_people data of
             None \<Rightarrow> Inl KeyError
           | Some people_stats \<Rightarrow>
               if people_stats = [] then Inl ZeroDivisionError
               else
                 (let t = (\<Sum>p\<leftarrow>left_out.
                       (of_int (\<Sum>(name, p)\<leftarrow>people_stats. left_out_count p)
                          / of_nat (length people_stats)
                        - of_int (person_left_out_count people_stats p))
                       * of_int (fairness_bonus w))
                  in Inr (of_int score + t, bd\<lparr>fairness_score := fairness_score bd + t\<rparr>)))"
  by (simp add: fairness_foldl Let_def split: option.splits)

declare fairness.simps [simp del]




subsection \<open>The scorer on the test data\<close>













text \<open>
  Claim C6 says that an empty roster makes the average 0 and that the division never
  raises.  The source divides by \<^verbatim>\<open>len(people_stats)\<close> without a guard: with an empty
  roster and a leftover participant the call ends in \<^verbatim>\<open>ZeroDivisionError\<close> and returns
  no (score, breakdown) pair.
\<close>

theorem empty_roster_raises:
  "score_solution [] [''Mary Jones''] \<lparr>data_people = Some [], data_pairings = Some []\<rparr>
     ''2025-31'' None = Inl ZeroDivisionError"
  by (simp add: score_solution_def fairness_closed)

section \<open>Properties of the ranker\<close>

lemma slice_to_nat: "slice_to (int n) xs = take n xs"
  by (simp add: slice_to_def)

lemma score_solutions_pairs:
  "score_solutions data tw manual_pairs sols = Inr scored \<Longrightarrow>
     \<forall>r \<in> set scored. set manual_pairs \<subseteq> set (fst (snd r))"
proof (induction sols arbitrary: scored)
  case Nil
  then show ?case by simp
next
  case (Cons sol sols)
  then show ?case
    by (cases sol) (fastforce simp: Let_def split: sum.splits)
qed

lemma sort_by_score_desc_sorted: "sorted_wrt (\<ge>) (map fst (sort_by_score_desc xs))"
proof -
  have "sorted (map fst (sort_key fst (rev xs)))" by (rule sorted_sort_key)
  then have "sorted_wrt (\<lambda>x y. y \<ge> x) (map fst (sort_key fst (rev xs)))"
    by simp
  then have "sorted_wrt (\<ge>) (rev (map fst (sort_key fst (rev xs))))"
    by (simp add: sorted_wrt_rev)
  then show ?thesis by (simp add: sort_by_score_desc_def rev_map)
qed

lemma set_sort_by_score_desc: "set (sort_by_score_desc xs) = set xs"
  by (simp add: sort_by_score_desc_def)

lemma test_available:
  "filter (\<lambda>p. p \<notin> set (members [(''Mary Jones'', ''Peter Smith'')])) test_people
     = [''Sarah Brown'', ''John Doe'', ''Lisa Wilson'']"
  by (simp add: members_def test_people_def)

lemma test_ranked:
  "find_best_pairings test_people test_data ''2025-31''
     (Some [(''Mary Jones'', ''Peter Smith'')]) (int 3) =
   Inr [(37 / 5,
         [(''Mary Jones'', ''Peter Smith''), (''Sarah Brown'', ''Lisa Wilson'')],
         [''John Doe''],
         Counts \<lparr>first_time_meetings = 1, recent_pairings = 1, old_pairings = 0,
                  fairness_score = 12 / 5, total_pairs = 2\<rparr>),
        (7 / 5,
         [(''Mary Jones'', ''Peter Smith''), (''John Doe'', ''Lisa Wilson'')],
         [''Sarah Brown''],
         Counts \<lparr>first_time_meetings = 1, recent_pairings = 1, old_pairings = 0,
                  fairness_score = - (18 / 5), total_pairs = 2\<rparr>),
        (- (53 / 5),
         [(''Mary Jones'', ''Peter Smith''), (''Sarah Brown'', ''John Doe'')],
         [''Lisa Wilson''],
         Counts \<lparr>first_time_meetings = 0, recent_pairings = 2, old_pairings = 0,
                  fairness_score = - (3 / 5), total_pairs = 2\<rparr>)]"
  by code_simp

text \<open>
  Claim C7.  When at least two people remain available after the manually paired ones are
  removed, every solution that \<^verbatim>\<open>find_best_pairings\<close> returns contains every manual
  pair in its pair list, the returned list is sorted by descending score, and it has at
  most \<open>top_n\<close> elements; \<open>top_n\<close> is a number of solutions, a natural number.
\<close>

theorem ranker_manual_sorted_top_n:
  assumes "manual_pairs = (case manual_pairs_arg of None \<Rightarrow> [] | Some m \<Rightarrow> m)"
    and "2 \<le> length (filter (\<lambda>p. p \<notin> set (members manual_pairs)) active_people)"
    and "find_best_pairings active_people data tw manual_pairs_arg (int top_n) = Inr ranked"
  shows "(\<forall>(score, pairs, left_out, info) \<in> set ranked. set manual_pairs \<subseteq> set pairs)
    \<and> sorted_wrt (\<ge>) (map fst ranked)
    \<and> length ranked \<le> top_n"
proof -
  define available where
    "available = filter (\<lambda>p. p \<notin> set (members manual_pairs)) active_people"
  from assms(2) have "2 \<le> length available" by (simp add: available_def)
  then have len: "\<not> length available < 2" "available \<noteq> []" by auto
  from assms(3) obtain scored where
    sc: "score_solutions data tw manual_pairs (get_all_possible_pairings available) = Inr scored"
    and r: "ranked = take top_n (sort_by_score_desc scored)"
    unfolding find_best_pairings_def Let_def assms(1) [symmetric] available_def [symmetric]
    using len by (auto simp: slice_to_nat split: sum.splits)
  have "\<forall>r \<in> set ranked. set manual_pairs \<subseteq> set (fst (snd r))"
    using score_solutions_pairs [OF sc] set_sort_by_score_desc [of scored]
    by (auto simp: r dest!: in_set_takeD)
  moreover have "sorted_wrt (\<ge>) (map fst ranked)"
    unfolding r take_map [symmetric] by (intro sorted_wrt_take sort_by_score_desc_sorted)
  moreover have "length ranked \<le> top_n" by (simp add: r)
  ultimately show ?thesis by fastforce
qed

theorem ranker_manual_sorted_top_n_witness:
  "2 \<le> length (filter (\<lambda>p. p \<notin> set (members [(''Mary Jones'', ''Peter Smith'')])) test_people)
   \<and> (\<exists>ranked.
         find_best_pairings test_people test_data ''2025-31''
           (Some [(''Mary Jones'', ''Peter Smith'')]) (int 3) = Inr ranked
         \<and> (\<forall>(score, pairs, left_out, info) \<in> set ranked.
               set [(''Mary Jones'', ''Peter Smith'')] \<subseteq> set pairs)
         \<and> sorted_wrt (\<ge>) (map fst ranked)
         \<and> length ranked \<le> 3)"
proof -
  have h1: "[(''Mary Jones'', ''Peter Smith'')]
      = (case Some [(''Mary Jones'', ''Peter Smith'')] of None \<Rightarrow> [] | Some m \<Rightarrow> m)"
    by simp
  have h2: "2 \<le> length (filter (\<lambda>p. p \<notin> set (members [(''Mary Jones'', ''Peter Smith'')]))
      test_people)"
    by (simp add: test_available)
  from ranker_manual_sorted_top_n [OF h1 h2 test_ranked] h2 test_ranked
  show ?thesis by blast
qed

text \<open>
  Claim C8.  When exactly one person remains available, \<^verbatim>\<open>find_best_pairings\<close> returns
  the single solution made of the manual pairs, that person as the leftover and score 0;
  when nobody remains, the single solution made of the manual pairs, an empty leftover
  and score 0.  In both cases the breakdown is a note that names the degenerate case.
\<close>

theorem ranker_degenerate_cases:
  "let manual_pairs = (case manual_pairs_arg of None \<Rightarrow> [] | Some m \<Rightarrow> m);
       available_people = filter (\<lambda>p. p \<notin> set (members manual_pairs)) active_people
   in (length available_people = 1 \<longrightarrow>
         find_best_pairings active_people data tw manual_pairs_arg top_n =
           Inr [(0, manual_pairs, available_people,
                 Note ''Only 1 person available for auto-pairing'')])
    \<and> (length available_people = 0 \<longrightarrow>
         find_best_pairings active_people data tw manual_pairs_arg top_n =
           Inr [(0, manual_pairs, [], Note ''All pairs are manual'')])"
  by (simp add: find_best_pairings_def Let_def)

theorem ranker_degenerate_cases_witness:
  "find_best_pairings [''Mary Jones'', ''Peter Smith'', ''Sarah Brown''] test_data ''2025-31''
     (Some [(''Mary Jones'', ''Peter Smith'')]) 3
     = Inr [(0, [(''Mary Jones'', ''Peter Smith'')], [''Sarah Brown''],
             Note ''Only 1 person available for auto-pairing'')]
   \<and> find_best_pairings [''Mary Jones'', ''Peter Smith''] test_data ''2025-31''
     (Some [(''Mary Jones'', ''Peter Smith'')]) 3
     = Inr [(0, [(''Mary Jones'', ''Peter Smith'')], [], Note ''All pairs are manual'')]"
  using ranker_degenerate_cases [of "Some [(''Mary Jones'', ''Peter Smith'')]"
      "[''Mary Jones'', ''Peter Smith'', ''Sarah Brown'']" test_data "''2025-31''" 3]
    ranker_degenerate_cases [of "Some [(''Mary Jones'', ''Peter Smith'')]"
      "[''Mary Jones'', ''Peter Smith'']" test_data "''2025-31''" 3]
  by (simp add: Let_def members_def)

end
